theory Spec2Isabelle
  imports Main "HOL-Library.AList" "HOL-Library.Sublist"
begin

section \<open>The packaging script \<open>scripts/build.py\<close>\<close>

text \<open>
  The script takes a mode (\<open>copy\<close> or \<open>pack\<close>) and a destination directory, and for
  each plugin of a fixed list either copies the plugin's build output tree below the
  destination or packs its files into a zip archive there.  Everything it does is a
  sequence of calls into \<open>os\<close>, \<open>os.path\<close>, \<open>shutil\<close> and \<open>zipfile\<close>; the model
  below gives the file system as a value, every such call as a function on that value,
  and every exception as an error value.

  What the model leaves out: symbolic links, permissions, timestamps, devices, disk
  space, and the byte layout of a zip archive (an archive is the list of its entries;
  LZMA compression is lossless and so invisible).  Paths are POSIX paths, taken as the
  lists of their components from the root.

  A run returns \<open>Some (r, st)\<close>: \<open>st\<close> is the state it leaves, and \<open>r\<close> is \<open>None\<close>
  when it ends normally and \<open>Some e\<close> when the exception \<open>e\<close> ends it.  In one
  situation, a copy whose destination lies inside the tree that is copied, the model
  gives no result and the run returns \<open>None\<close>; it is described at \<open>copytree\<close>.
\<close>

subsection \<open>The file system\<close>

type_synonym path = "string list"

text \<open>
  A file holds bytes, or is a zip archive given by its entries in the order they were
  written.  An archive keeps every entry written to it: \<open>ZipFile.write\<close> with a name
  that is already present only warns (\<open>Duplicate name\<close>) and appends a second entry.
  \<open>Partial es\<close> is what the file of an archive holds while the archive is open for
  writing and the entries \<open>es\<close> have been written: an unfinished archive, which
  closing the archive turns into \<open>Zip es\<close>.
\<close>

datatype fdata = Raw string | Zip "(string \<times> fdata) list" | Partial "(string \<times> fdata) list"

text \<open>
  A directory is the list of its entries in the order \<open>os.scandir\<close> reports them,
  which is the order \<open>os.walk\<close> and \<open>shutil.copytree\<close> visit them in.
\<close>

datatype node = File fdata | Dir "(string \<times> node) list"

datatype error =
    FileNotFoundError path
  | NotADirectoryError path
  | IsADirectoryError path
  | FileExistsError path
  | OSError path
  | ValueError string

record state =
  cwd :: path
  fs :: node
  stdout :: "string list"

fun lookup :: "node \<Rightarrow> path \<Rightarrow> node option" where
  "lookup n [] = Some n"
| "lookup n (c # cs) =
     (case n of
        File d \<Rightarrow> None
      | Dir es \<Rightarrow> (case map_of es c of None \<Rightarrow> None | Some m \<Rightarrow> lookup m cs))"

definition is_dir :: "node \<Rightarrow> bool" where
  "is_dir n = (case n of Dir es \<Rightarrow> True | File d \<Rightarrow> False)"

text \<open>\<open>os.path.exists\<close> and \<open>os.path.isdir\<close>.\<close>

definition path_exists :: "node \<Rightarrow> path \<Rightarrow> bool" where
  "path_exists t p = (case lookup t p of None \<Rightarrow> False | Some n \<Rightarrow> True)"

definition path_isdir :: "node \<Rightarrow> path \<Rightarrow> bool" where
  "path_isdir t p = (case lookup t p of None \<Rightarrow> False | Some n \<Rightarrow> is_dir n)"

text \<open>
  \<open>upd p x t\<close> sets the entry at \<open>p\<close> to the node \<open>x\<close>, or removes it when \<open>x\<close> is
  \<open>None\<close>.  The directory that holds \<open>p\<close> must exist; otherwise nothing changes.  A new
  entry goes to the end of its directory's listing.
\<close>

fun upd :: "path \<Rightarrow> node option \<Rightarrow> node \<Rightarrow> node" where
  "upd [] x n = (case x of None \<Rightarrow> n | Some m \<Rightarrow> m)"
| "upd (c # cs) x n =
     (case n of
        File d \<Rightarrow> File d
      | Dir es \<Rightarrow>
          (if cs = [] then
             (case x of None \<Rightarrow> Dir (AList.delete c es) | Some m \<Rightarrow> Dir (AList.update c m es))
           else
             (case map_of es c of
                None \<Rightarrow> Dir es
              | Some m \<Rightarrow> Dir (AList.update c (upd cs x m) es))))"

subsection \<open>Paths\<close>

text \<open>\<open>str.split('/')\<close>.\<close>

fun split_sep :: "string \<Rightarrow> string list" where
  "split_sep [] = [[]]"
| "split_sep (c # cs) =
     (if c = CHR ''/'' then [] # split_sep cs
      else (case split_sep cs of [] \<Rightarrow> [[c]] | w # ws \<Rightarrow> (c # w) # ws))"

text \<open>
  The loop of \<open>posixpath.normpath\<close> on an absolute path: empty components and \<open>.\<close>
  are dropped, \<open>..\<close> removes the last component and is dropped at the root.
\<close>

fun normpath :: "string list \<Rightarrow> path \<Rightarrow> path" where
  "normpath [] acc = acc"
| "normpath (c # cs) acc =
     (if c = [] \<or> c = ''.'' then normpath cs acc
      else if c = ''..'' then normpath cs (butlast acc)
      else normpath cs (acc @ [c]))"

text \<open>
  \<open>os.path.abspath(s)\<close> is \<open>normpath(join(os.getcwd(), s))\<close>; the working directory
  is an absolute normalised path, so its components are the starting point when \<open>s\<close> is
  relative.
\<close>

definition abspath :: "path \<Rightarrow> string \<Rightarrow> path" where
  "abspath wd s =
     (case s of
        c # cs \<Rightarrow> if c = CHR ''/'' then normpath (split_sep s) [] else normpath (split_sep s) wd
      | [] \<Rightarrow> normpath (split_sep s) wd)"

text \<open>
  \<open>os.path.join(p, c1, ..., cn)\<close> where every \<open>ci\<close> is a plain name, as at each call in
  the script.
\<close>

definition path_join :: "path \<Rightarrow> string list \<Rightarrow> path" where
  "path_join p cs = p @ cs"

text \<open>An absolute path as the string that \<open>print\<close> shows.\<close>

definition path_str :: "path \<Rightarrow> string" where
  "path_str p = (if p = [] then ''/'' else concat (map (\<lambda>c. ''/'' @ c) p))"

subsection \<open>The script's constants and helpers\<close>

definition configuration :: string where
  "configuration = ''Debug''"

definition target :: string where
  "target = ''net462''"

definition plugins :: "string list" where
  "plugins = [''F95ZoneMetadata'', ''DLSiteMetadata'']"

definition validate_path :: "path \<Rightarrow> bool \<Rightarrow> node \<Rightarrow> error + unit" where
  "validate_path p isdir t =
     (if \<not> path_exists t p then Inl (FileNotFoundError p)
      else if isdir \<and> \<not> path_isdir t p then Inl (NotADirectoryError p)
      else Inr ())"

definition get_build_output_path :: "path \<Rightarrow> node \<Rightarrow> error + path" where
  "get_build_output_path plugin_path t =
     (let result = path_join plugin_path [''bin'', configuration, target] in
      case validate_path result True t of
        Inl e \<Rightarrow> Inl e
      | Inr u \<Rightarrow> Inr result)"

subsection \<open>Library calls that change the file system\<close>

text \<open>
  \<open>shutil.rmtree(p)\<close> with its default arguments: a missing path and a path that is not
  a directory are errors, and nothing is removed then.  The script calls it on a path
  below the destination, never on the root; for the root the model gives the error of
  the final \<open>rmdir\<close> and does not model what was removed before it.
\<close>

definition rmtree :: "path \<Rightarrow> node \<Rightarrow> error + node" where
  "rmtree p t =
     (case lookup t p of
        None \<Rightarrow> Inl (FileNotFoundError p)
      | Some (File d) \<Rightarrow> Inl (NotADirectoryError p)
      | Some (Dir es) \<Rightarrow> if p = [] then Inl (OSError p) else Inr (upd p None t))"

text \<open>
  \<open>os.makedirs(p)\<close>: every missing directory on the way to \<open>p\<close> is created; it is an
  error if \<open>p\<close> exists, or if a file is in the way.
\<close>

fun mkdir_p :: "path \<Rightarrow> node \<Rightarrow> node option" where
  "mkdir_p [] n = (case n of File d \<Rightarrow> None | Dir es \<Rightarrow> Some n)"
| "mkdir_p (c # cs) n =
     (case n of
        File d \<Rightarrow> None
      | Dir es \<Rightarrow>
          (case mkdir_p cs (case map_of es c of None \<Rightarrow> Dir [] | Some m \<Rightarrow> m) of
             None \<Rightarrow> None
           | Some m' \<Rightarrow> Some (Dir (AList.update c m' es))))"

definition makedirs :: "path \<Rightarrow> node \<Rightarrow> error + node" where
  "makedirs p t =
     (if path_exists t p then Inl (FileExistsError p)
      else (case mkdir_p p t of None \<Rightarrow> Inl (NotADirectoryError p) | Some t' \<Rightarrow> Inr t'))"

text \<open>
  \<open>shutil.copytree(src, dst)\<close> lists \<open>src\<close>, then creates \<open>dst\<close>, then copies the
  listed entries, descending into each listed directory and listing it when it gets
  there.  The listing of \<open>src\<close> is taken before \<open>dst\<close> exists, so a \<open>dst\<close> directly
  inside \<open>src\<close> is not copied into itself.  When \<open>dst\<close> lies deeper, inside a directory
  \<open>s\<close> that was listed, the descent into \<open>s\<close> finds \<open>dst\<close> and copies it into itself
  without end, until a resource limit stops the run with an error; \<open>reenters\<close> is that
  case, and the model gives no result for it (\<open>None\<close>).
\<close>

definition reenters :: "path \<Rightarrow> path \<Rightarrow> (string \<times> node) list \<Rightarrow> bool" where
  "reenters src dst es =
     (prefix src dst \<and>
      (case drop (length src) dst of
         s # r # rest \<Rightarrow> (case map_of es s of Some (Dir ds) \<Rightarrow> True | _ \<Rightarrow> False)
       | _ \<Rightarrow> False))"

definition copytree :: "path \<Rightarrow> path \<Rightarrow> node \<Rightarrow> (error + node) option" where
  "copytree src dst t =
     (case lookup t src of
        None \<Rightarrow> Some (Inl (FileNotFoundError src))
      | Some (File d) \<Rightarrow> Some (Inl (NotADirectoryError src))
      | Some (Dir es) \<Rightarrow>
          (case makedirs dst t of
             Inl e \<Rightarrow> Some (Inl e)
           | Inr t1 \<Rightarrow>
               if reenters src dst es then None
               else Some (Inr (upd dst (Some (Dir es)) t1))))"

text \<open>
  \<open>os.walk(top)\<close>, top down: the triple of a directory (its path, the names of its
  subdirectories, the names of its other entries), then the walks of its subdirectories
  in listing order.  \<open>walk_dir\<close> walks a directory node; \<open>os_walk\<close> starts at a path.
  Errors of the listing are ignored (\<open>onerror\<close> is not given), so a path that is no
  directory yields nothing.
\<close>

fun walk_dir :: "path \<Rightarrow> node \<Rightarrow> (path \<times> string list \<times> string list) list" where
  "walk_dir dirpath (File d) = []"
| "walk_dir dirpath (Dir es) =
     (dirpath, map fst (filter (\<lambda>e. is_dir (snd e)) es),
               map fst (filter (\<lambda>e. \<not> is_dir (snd e)) es)) #
     concat (map (\<lambda>e. walk_dir (dirpath @ [fst e]) (snd e)) (filter (\<lambda>e. is_dir (snd e)) es))"

definition os_walk :: "node \<Rightarrow> path \<Rightarrow> (path \<times> string list \<times> string list) list" where
  "os_walk t dirpath = (case lookup t dirpath of None \<Rightarrow> [] | Some n \<Rightarrow> walk_dir dirpath n)"

text \<open>
  \<open>zipfile.ZipFile(zp, "w", ZIP_LZMA)\<close> opens \<open>zp\<close> for writing, which creates the file
  or empties it.
\<close>

definition zip_open :: "path \<Rightarrow> node \<Rightarrow> error + node" where
  "zip_open zp t =
     (case lookup t zp of
        Some (Dir es) \<Rightarrow> Inl (IsADirectoryError zp)
      | _ \<Rightarrow>
          (case lookup t (butlast zp) of
             None \<Rightarrow> Inl (FileNotFoundError zp)
           | Some (File d) \<Rightarrow> Inl (NotADirectoryError zp)
           | Some (Dir es) \<Rightarrow> Inr (upd zp (Some (File (Partial []))) t)))"

text \<open>
  \<open>myzip.write(filename, arcname)\<close> reads the file as it is at that moment and
  appends one entry to the archive, whatever entries it has already.  The archive
  object holds the entries \<open>es\<close> written so far; the file at \<open>zp\<close> follows them.
\<close>

definition zip_write ::
  "path \<Rightarrow> path \<Rightarrow> string \<Rightarrow> (string \<times> fdata) list \<Rightarrow> node
     \<Rightarrow> error + ((string \<times> fdata) list \<times> node)" where
  "zip_write zp filename arcname es t =
     (case lookup t filename of
        None \<Rightarrow> Inl (FileNotFoundError filename)
      | Some (File d) \<Rightarrow>
          Inr (es @ [(arcname, d)], upd zp (Some (File (Partial (es @ [(arcname, d)])))) t)
      | Some (Dir ds) \<Rightarrow>
          Inr (es @ [(arcname @ ''/'', Raw [])],
               upd zp (Some (File (Partial (es @ [(arcname @ ''/'', Raw [])])))) t))"

subsection \<open>The run\<close>

text \<open>
  The two nested loops of pack mode,
  \<^verbatim>\<open>for root, dirs, files in os.walk(build_output_path):
    for file in files:
        myzip.write(os.path.join(root, file), file)\<close>
  visit the pairs \<open>walk_files\<close> lists, in that order; \<open>write_files\<close> is the loop over
  them.  The walk lists a directory when it reaches it, and the writes change no
  listing, only the content of the archive.
\<close>

definition walk_files :: "(path \<times> string list \<times> string list) list \<Rightarrow> (path \<times> string) list" where
  "walk_files ws =
     concat (map (\<lambda>(root, dirs, files). map (\<lambda>file. (path_join root [file], file)) files) ws)"

fun write_files ::
  "path \<Rightarrow> (path \<times> string) list \<Rightarrow> (string \<times> fdata) list \<Rightarrow> node
     \<Rightarrow> error option \<times> (string \<times> fdata) list \<times> node" where
  "write_files zp [] es t = (None, es, t)"
| "write_files zp ((filename, arcname) # js) es t =
     (case zip_write zp filename arcname es t of
        Inl e \<Rightarrow> (Some e, es, t)
      | Inr (es', t') \<Rightarrow> write_files zp js es' t')"

text \<open>
  The \<open>with\<close> block of pack mode: the archive is opened, the files of the walk are
  written to it, and it is closed, also when a write has failed.  The archive exists
  from the moment it is opened, before the walk lists anything.  So when it lies
  inside the tree that is walked, the walk finds it, and the script writes to the
  archive an entry for the archive itself, with what the unfinished archive holds at
  that moment.
\<close>

definition pack :: "path \<Rightarrow> path \<Rightarrow> node \<Rightarrow> error option \<times> node" where
  "pack zip_output_path build_output_path t =
     (case zip_open zip_output_path t of
        Inl e \<Rightarrow> (Some e, t)
      | Inr t1 \<Rightarrow>
          (case write_files zip_output_path (walk_files (os_walk t1 build_output_path)) [] t1 of
             (r, es, t2) \<Rightarrow> (r, upd zip_output_path (Some (File (Zip es))) t2)))"

text \<open>
  The body of \<open>for plugin in plugins\<close>.  The result is \<open>None\<close> where the model gives
  none, and otherwise the exception that ended the body, if any, with the state it left.
\<close>

definition main_body ::
  "string \<Rightarrow> path \<Rightarrow> path \<Rightarrow> string \<Rightarrow> state \<Rightarrow> (error option \<times> state) option" where
  "main_body mode output_path src_path plugin st =
     (let plugin_path = path_join src_path [plugin] in
      case validate_path plugin_path True (fs st) of
        Inl e \<Rightarrow> Some (Some e, st)
      | Inr u \<Rightarrow>
     (case get_build_output_path plugin_path (fs st) of
        Inl e \<Rightarrow> Some (Some e, st)
      | Inr build_output_path \<Rightarrow>
          if mode = ''copy'' then
            (let plugin_output_path = path_join output_path [plugin] in
             case (if path_exists (fs st) plugin_output_path
                   then rmtree plugin_output_path (fs st) else Inr (fs st)) of
               Inl e \<Rightarrow> Some (Some e, st)
             | Inr t1 \<Rightarrow>
                 (let st1 = st\<lparr>fs := t1,
                       stdout := stdout st @
                         [''Copying build output files from '' @ path_str build_output_path
                            @ '' to '' @ path_str plugin_output_path]\<rparr>
                  in case copytree build_output_path plugin_output_path t1 of
                       None \<Rightarrow> None
                     | Some (Inl e) \<Rightarrow> Some (Some e, st1)
                     | Some (Inr t2) \<Rightarrow> Some (None, st1\<lparr>fs := t2\<rparr>)))
          else if mode = ''pack'' then
            (let zip_output_path = path_join output_path [plugin @ ''.zip''] in
             case pack zip_output_path build_output_path (fs st) of
               (r, t1) \<Rightarrow> Some (r, st\<lparr>fs := t1\<rparr>))
          else Some (Some (ValueError (''Unknown mode: '' @ mode)), st)))"

text \<open>The loop: the first exception ends it.\<close>

fun main_loop ::
  "string \<Rightarrow> path \<Rightarrow> path \<Rightarrow> string list \<Rightarrow> state \<Rightarrow> (error option \<times> state) option" where
  "main_loop mode output_path src_path [] st = Some (None, st)"
| "main_loop mode output_path src_path (plugin # ps) st =
     (case main_body mode output_path src_path plugin st of
        None \<Rightarrow> None
      | Some (Some e, st') \<Rightarrow> Some (Some e, st')
      | Some (None, st') \<Rightarrow> main_loop mode output_path src_path ps st')"

definition main :: "string list \<Rightarrow> state \<Rightarrow> (error option \<times> state) option" where
  "main argv st =
     (if length argv \<noteq> 3 then Some (Some (ValueError ''Not enough arguments!''), st)
      else
        (let output_path = abspath (cwd st) (argv ! 2) in
         case validate_path output_path True (fs st) of
           Inl e \<Rightarrow> Some (Some e, st)
         | Inr u \<Rightarrow>
        (let src_path = abspath (cwd st) ''../src'' in
         case validate_path src_path True (fs st) of
           Inl e \<Rightarrow> Some (Some e, st)
         | Inr u \<Rightarrow>
        (let mode = argv ! 1 in
         main_loop mode output_path src_path plugins st))))"

subsection \<open>Notions used to state the properties\<close>

text \<open>Two paths overlap when one of them is at or below the other.\<close>

definition overlap :: "path \<Rightarrow> path \<Rightarrow> bool" where
  "overlap p q = (prefix p q \<or> prefix q p)"

text \<open>What the body writes for a plugin: a directory in copy mode, an archive in pack mode.\<close>

definition output_of :: "string \<Rightarrow> path \<Rightarrow> string \<Rightarrow> path" where
  "output_of mode output_path plugin =
     (if mode = ''copy'' then path_join output_path [plugin]
      else path_join output_path [plugin @ ''.zip''])"


text \<open>The build output directory of a plugin, as \<open>main\<close> and \<open>get_build_output_path\<close> form it.\<close>

definition build_of :: "path \<Rightarrow> string \<Rightarrow> path" where
  "build_of src_path plugin =
     path_join (path_join src_path [plugin]) [''bin'', configuration, target]"

text \<open>The content of a regular file.\<close>

definition content :: "node \<Rightarrow> path \<Rightarrow> fdata" where
  "content t p = (case lookup t p of Some (File d) \<Rightarrow> d | _ \<Rightarrow> Raw [])"

text \<open>
  The files the loops of pack mode visit below a directory, each with the name it gets
  in the archive, in the order of the visit.
\<close>

abbreviation jobs_of :: "node \<Rightarrow> path \<Rightarrow> (path \<times> string) list" where
  "jobs_of t b \<equiv> walk_files (os_walk t b)"


text \<open>A tree without regular files: a directory that holds nothing but such directories.\<close>

fun only_dirs :: "node \<Rightarrow> bool" where
  "only_dirs (File d) = False"
| "only_dirs (Dir es) = (\<forall>e \<in> set es. only_dirs (snd e))"

subsection \<open>Concrete file systems\<close>

text \<open>
  The script is run from \<open>/w/scripts\<close>, so the source root is \<open>/w/src\<close>; \<open>layout f d out\<close>
  has \<open>f\<close> and \<open>d\<close> as the two plugin directories and \<open>out\<close> as the content of
  \<open>/out\<close>.  \<open>built es\<close> is a plugin directory whose build output directory holds \<open>es\<close>.
\<close>

definition built :: "(string \<times> node) list \<Rightarrow> node" where
  "built es = Dir [(''bin'', Dir [(''Debug'', Dir [(''net462'', Dir es)])])]"

definition layout :: "node \<Rightarrow> node \<Rightarrow> (string \<times> node) list \<Rightarrow> state" where
  "layout f d out =
     \<lparr>cwd = [''w'', ''scripts''],
      fs = Dir [(''w'', Dir [(''scripts'', Dir []),
                            (''src'', Dir [(''F95ZoneMetadata'', f), (''DLSiteMetadata'', d)])]),
                (''out'', Dir out)],
      stdout = []\<rparr>"

definition tree_xx :: "(string \<times> node) list" where
  "tree_xx = [(''a'', Dir [(''x.txt'', File (Raw ''A''))]),
              (''b'', Dir [(''x.txt'', File (Raw ''B''))])]"

definition tree_ab :: "(string \<times> node) list" where
  "tree_ab = [(''a.txt'', File (Raw ''1'')), (''sub'', Dir [(''b.txt'', File (Raw ''2''))])]"

text \<open>
  \<open>demo\<close>: both plugins are built, and \<open>/out\<close> holds a directory left by an earlier
  run.  \<open>demo_copied\<close> and \<open>demo_packed\<close> are what a copy and a pack run to \<open>/out\<close> leave;
  \<open>demo_src_deleted\<close> is what a copy run to \<open>../src\<close> leaves.
\<close>

definition demo :: state where
  "demo = layout (built tree_xx) (built tree_ab)
            [(''F95ZoneMetadata'', Dir [(''stale'', File (Raw ''old''))])]"

definition demo_copied :: state where
  "demo_copied =
     (layout (built tree_xx) (built tree_ab)
        [(''F95ZoneMetadata'', Dir tree_xx), (''DLSiteMetadata'', Dir tree_ab)])
     \<lparr>stdout := [''Copying build output files from /w/src/F95ZoneMetadata/bin/Debug/net462 to /out/F95ZoneMetadata'',
                 ''Copying build output files from /w/src/DLSiteMetadata/bin/Debug/net462 to /out/DLSiteMetadata'']\<rparr>"



text \<open>
  \<open>nested\<close>: the build output directory of the first plugin holds a directory named like
  the plugin; \<open>nested_copied\<close> is what a copy run into that build output directory leaves.
\<close>

definition nested :: state where
  "nested = layout (built [(''F95ZoneMetadata'', Dir [(''old.txt'', File (Raw ''o''))]),
                           (''a.txt'', File (Raw ''1''))]) (built []) []"

definition nested_copied :: state where
  "nested_copied =
     (layout (built [(''a.txt'', File (Raw ''1'')),
                     (''F95ZoneMetadata'', Dir [(''a.txt'', File (Raw ''1''))]),
                     (''DLSiteMetadata'', Dir [])]) (built []) [])
     \<lparr>stdout := [''Copying build output files from /w/src/F95ZoneMetadata/bin/Debug/net462 to /w/src/F95ZoneMetadata/bin/Debug/net462/F95ZoneMetadata'',
                 ''Copying build output files from /w/src/DLSiteMetadata/bin/Debug/net462 to /w/src/F95ZoneMetadata/bin/Debug/net462/DLSiteMetadata'']\<rparr>"

text \<open>
  \<open>cross\<close>: the build output directory of the second plugin holds a directory named like
  that plugin, left there by an earlier run into this directory; \<open>cross_copied\<close> is what
  a copy run into the second plugin's build output directory leaves.
\<close>

definition cross :: state where
  "cross = layout (built [(''x'', File (Raw ''new''))])
             (built [(''DLSiteMetadata'', Dir [(''F95ZoneMetadata'', Dir [(''x'', File (Raw ''old''))])])]) []"

definition cross_copied :: state where
  "cross_copied =
     (layout (built [(''x'', File (Raw ''new''))])
             (built [(''F95ZoneMetadata'', Dir [(''x'', File (Raw ''new''))]),
                     (''DLSiteMetadata'', Dir [(''F95ZoneMetadata'', Dir [(''x'', File (Raw ''new''))])])]) [])
     \<lparr>stdout := [''Copying build output files from /w/src/F95ZoneMetadata/bin/Debug/net462 to /w/src/DLSiteMetadata/bin/Debug/net462/F95ZoneMetadata'',
                 ''Copying build output files from /w/src/DLSiteMetadata/bin/Debug/net462 to /w/src/DLSiteMetadata/bin/Debug/net462/DLSiteMetadata'']\<rparr>"

text \<open>
  \<open>inside\<close>: both plugins are built; \<open>inside_packed\<close> is what a pack run into the first
  plugin's build output directory leaves.
\<close>

definition inside :: state where
  "inside = layout (built [(''a.txt'', File (Raw ''1''))]) (built tree_ab) []"

definition inside_packed :: state where
  "inside_packed =
     layout (built [(''a.txt'', File (Raw ''1'')),
                    (''F95ZoneMetadata.zip'',
                       File (Zip [(''a.txt'', Raw ''1''),
                                  (''F95ZoneMetadata.zip'', Partial [(''a.txt'', Raw ''1'')])])),
                    (''DLSiteMetadata.zip'',
                       File (Zip [(''a.txt'', Raw ''1''), (''b.txt'', Raw ''2'')]))])
            (built tree_ab) []"

text \<open>
  \<open>plugin_is_file\<close>: the first plugin's source path is a regular file.
  \<open>second_unbuilt\<close>: the second plugin has no build output.
  \<open>dest_is_file\<close>: the destination holds a regular file named like the first plugin.
  \<open>zip_is_dir\<close>: the destination holds a directory named like the first plugin's archive.
  \<open>empty_tree\<close>: the first plugin's build output holds an empty directory and nothing
  else; \<open>empty_tree_packed\<close> is what a pack run leaves of it.
\<close>

definition plugin_is_file :: state where
  "plugin_is_file = layout (File (Raw [])) (built tree_ab) []"

definition second_unbuilt :: state where
  "second_unbuilt = layout (built tree_xx) (Dir []) []"

definition dest_is_file :: state where
  "dest_is_file = layout (built tree_xx) (built tree_ab) [(''F95ZoneMetadata'', File (Raw ''f''))]"

definition zip_is_dir :: state where
  "zip_is_dir = layout (built []) (built tree_ab) [(''F95ZoneMetadata.zip'', Dir [])]"

definition empty_tree :: state where
  "empty_tree = layout (built [(''empty'', Dir [])]) (built tree_ab)
                  [(''F95ZoneMetadata.zip'', File (Raw ''junk''))]"

definition empty_tree_packed :: state where
  "empty_tree_packed = layout (built [(''empty'', Dir [])]) (built tree_ab)
                  [(''F95ZoneMetadata.zip'', File (Zip [])),
                   (''DLSiteMetadata.zip'', File (Zip [(''a.txt'', Raw ''1''), (''b.txt'', Raw ''2'')]))]"

section \<open>Lemmas\<close>

lemmas run_defs = main_def main_body_def validate_path_def get_build_output_path_def
  path_exists_def path_isdir_def is_dir_def path_join_def abspath_def plugins_def configuration_def
  target_def rmtree_def makedirs_def copytree_def reenters_def pack_def zip_open_def zip_write_def
  walk_files_def path_str_def layout_def built_def tree_xx_def tree_ab_def Let_def
  build_of_def output_of_def overlap_def content_def os_walk_def AList.delete_eq

subsection \<open>Looking up and updating\<close>

lemma lookup_append:
  "lookup t (p @ q) = (case lookup t p of None \<Rightarrow> None | Some n \<Rightarrow> lookup n q)"
  by (induction p arbitrary: t) (auto split: node.splits option.splits)

lemma lookup_File [simp]: "lookup (File d) p = (if p = [] then Some (File d) else None)"
  by (cases p) auto

lemma lookup_Dir_Nil [simp]: "lookup (Dir []) p = (if p = [] then Some (Dir []) else None)"
  by (cases p) auto

lemma lookup_upd_other:
  "\<not> prefix w q \<Longrightarrow> \<not> prefix q w \<Longrightarrow> lookup (upd w x t) q = lookup t q"
proof (induction w arbitrary: t q)
  case Nil
  then show ?case by simp
next
  case (Cons c cs)
  then obtain c' q' where q: "q = c' # q'" by (cases q) auto
  show ?case
  proof (cases t)
    case (File d)
    then show ?thesis by simp
  next
    case (Dir es)
    show ?thesis
    proof (cases "c' = c")
      case True
      with Cons.prems q have "\<not> prefix cs q'" "\<not> prefix q' cs" by auto
      then have cs: "cs \<noteq> []" by auto
      from Cons.IH[OF \<open>\<not> prefix cs q'\<close> \<open>\<not> prefix q' cs\<close>]
      show ?thesis using Dir q True cs
        by (auto simp: update_conv' split: option.splits)
    next
      case False
      then show ?thesis using Dir q
        by (auto simp: update_conv' delete_conv' split: option.splits)
    qed
  qed
qed

lemma lookup_upd_below:
  "lookup t w \<noteq> None \<Longrightarrow> lookup (upd w (Some m) t) (w @ r) = lookup m r"
proof (induction w arbitrary: t)
  case Nil
  then show ?case by simp
next
  case (Cons c cs)
  then show ?case
    by (cases t) (auto simp: update_conv' split: option.splits)
qed

lemma lookup_upd_parent:
  "lookup t (butlast w) = Some (Dir es) \<Longrightarrow> w \<noteq> [] \<Longrightarrow> lookup (upd w (Some m) t) (w @ r) = lookup m r"
proof (induction w arbitrary: t es)
  case Nil
  then show ?case by simp
next
  case (Cons c cs)
  then show ?case
    by (cases t) (auto simp: update_conv' split: option.splits if_splits)
qed

lemma lookup_upd_delete_below:
  "w \<noteq> [] \<Longrightarrow> lookup (upd w None t) (w @ r) = None"
proof (induction w arbitrary: t)
  case Nil
  then show ?case by simp
next
  case (Cons c cs)
  then show ?case
    by (cases t) (auto simp: update_conv' delete_conv' split: option.splits)
qed

lemma upd_None_lookup_None:
  "lookup t q = None \<Longrightarrow> lookup (upd w None t) q = None"
proof (induction w arbitrary: t q)
  case Nil
  then show ?case by simp
next
  case (Cons c cs)
  show ?case
  proof (cases q)
    case Nil
    with Cons.prems show ?thesis by simp
  next
    case (Cons c' q')
    with Cons.prems Cons.IH show ?thesis
      by (cases t) (auto simp: update_conv' delete_conv' split: option.splits if_splits)
  qed
qed

lemma delete_absent: "map_of es c = None \<Longrightarrow> AList.delete c es = es"
  by (induction es) (auto simp: AList.delete_eq split: if_splits)

lemma upd_None_absent: "lookup t w = None \<Longrightarrow> upd w None t = t"
proof (induction w arbitrary: t)
  case Nil
  then show ?case by simp
next
  case (Cons c cs)
  then show ?case
    by (cases t) (auto simp: delete_absent update_triv split: option.splits)
qed

lemma lookup_prefix_dir:
  "lookup t (q @ r) = Some n \<Longrightarrow> r \<noteq> [] \<Longrightarrow> \<exists>es. lookup t q = Some (Dir es)"
proof (induction q arbitrary: t)
  case Nil
  then show ?case by (cases r; cases t) auto
next
  case (Cons c cs)
  then show ?case
    by (cases t) (auto split: option.splits)
qed

lemma mkdir_p_dir:
  "mkdir_p w t = Some t1 \<Longrightarrow> \<exists>ds. lookup t1 w = Some (Dir ds)"
proof (induction w arbitrary: t t1)
  case Nil
  then show ?case by (cases t) auto
next
  case (Cons c cs)
  then show ?case
    by (cases t) (auto simp: update_conv' split: option.splits)
qed

lemma mkdir_p_other:
  "mkdir_p w t = Some t1 \<Longrightarrow> \<not> prefix q w \<Longrightarrow> lookup t1 q = lookup t q"
proof (induction w arbitrary: t t1 q)
  case Nil
  then show ?case by (cases t) auto
next
  case (Cons c cs)
  then obtain c' q' where q: "q = c' # q'" by (cases q) auto
  from Cons show ?case unfolding q
    by (cases t) (auto simp: update_conv' split: option.splits if_splits)
qed


subsection \<open>Validation and the library calls\<close>

lemma path_isdir_iff: "path_isdir t p \<longleftrightarrow> (\<exists>es. lookup t p = Some (Dir es))"
  by (auto simp: path_isdir_def is_dir_def split: option.splits node.splits)

lemma validate_path_unit: "validate_path p True t = Inr () \<longleftrightarrow> path_isdir t p"
  by (auto simp: validate_path_def path_exists_def path_isdir_def is_dir_def
      split: option.splits node.splits)

lemma validate_path_Inl:
  "validate_path p True t = Inl e \<longleftrightarrow>
     \<not> path_isdir t p \<and>
     e = (if (\<exists>d. lookup t p = Some (File d)) then NotADirectoryError p else FileNotFoundError p)"
  by (auto simp: validate_path_def path_exists_def path_isdir_def is_dir_def
      split: option.splits node.splits)

lemma get_build_output_path_Inr:
  "get_build_output_path pp t = Inr b \<longleftrightarrow>
     b = pp @ [''bin'', configuration, target] \<and> path_isdir t b"
  by (auto simp: get_build_output_path_def path_join_def Let_def validate_path_unit[symmetric]
      split: sum.splits)

lemma get_build_output_path_Inl:
  "get_build_output_path pp t = Inl e \<longleftrightarrow>
     validate_path (pp @ [''bin'', configuration, target]) True t = Inl e"
  by (auto simp: get_build_output_path_def path_join_def Let_def split: sum.splits)

lemma rmtree_Inr:
  "rmtree p t = Inr t' \<longleftrightarrow> p \<noteq> [] \<and> path_isdir t p \<and> t' = upd p None t"
  by (auto simp: rmtree_def path_isdir_iff split: option.splits node.splits)

lemma pre_delete:
  assumes "(if path_exists t w then rmtree w t else Inr t) = Inr t1"
  shows "t1 = upd w None t"
proof (cases "path_exists t w")
  case True
  with assms show ?thesis by (simp add: rmtree_Inr)
next
  case False
  then have "lookup t w = None" by (simp add: path_exists_def split: option.splits)
  with assms False show ?thesis by (simp add: upd_None_absent)
qed

lemma makedirs_other:
  "makedirs w t = Inr t1 \<Longrightarrow> \<not> prefix q w \<Longrightarrow> lookup t1 q = lookup t q"
  by (auto simp: makedirs_def mkdir_p_other split: if_splits option.splits)

lemma makedirs_dir:
  "makedirs w t = Inr t1 \<Longrightarrow> \<exists>ds. lookup t1 w = Some (Dir ds)"
  by (auto simp: makedirs_def split: if_splits option.splits dest: mkdir_p_dir)

lemma copytree_Inr:
  assumes "copytree b w t = Some (Inr t2)"
  shows "\<exists>es. lookup t b = Some (Dir es) \<and> (\<forall>rel. lookup t2 (w @ rel) = lookup (Dir es) rel)
             \<and> (\<forall>q. \<not> overlap w q \<longrightarrow> lookup t2 q = lookup t q)"
proof -
  from assms obtain es t1 where b: "lookup t b = Some (Dir es)" and m: "makedirs w t = Inr t1"
    and t2: "t2 = upd w (Some (Dir es)) t1"
    by (auto simp: copytree_def split: option.splits node.splits sum.splits if_splits)
  from makedirs_dir[OF m] have "lookup t1 w \<noteq> None" by auto
  then have "lookup t2 (w @ rel) = lookup (Dir es) rel" for rel
    unfolding t2 by (rule lookup_upd_below)
  moreover have "lookup t2 q = lookup t q" if "\<not> overlap w q" for q
    using that unfolding t2 by (simp add: overlap_def lookup_upd_other makedirs_other[OF m])
  ultimately show ?thesis using b by blast
qed



subsection \<open>The walk\<close>






lemma walk_files_append: "walk_files (xs @ ys) = walk_files xs @ walk_files ys"
  by (simp add: walk_files_def)

lemma walk_files_concat: "walk_files (concat xss) = concat (map walk_files xss)"
  by (induction xss) (simp_all add: walk_files_append, simp add: walk_files_def)

lemma walk_files_Dir:
  "walk_files (walk_dir d (Dir es)) =
     map (\<lambda>a. (d @ [a], a)) (map fst (filter (\<lambda>e. \<not> is_dir (snd e)) es)) @
     concat (map (\<lambda>e. walk_files (walk_dir (d @ [fst e]) (snd e))) (filter (\<lambda>e. is_dir (snd e)) es))"
proof -
  have "walk_files (walk_dir d (Dir es)) =
      walk_files [(d, map fst (filter (\<lambda>e. is_dir (snd e)) es),
                     map fst (filter (\<lambda>e. \<not> is_dir (snd e)) es))] @
      walk_files (concat (map (\<lambda>e. walk_dir (d @ [fst e]) (snd e)) (filter (\<lambda>e. is_dir (snd e)) es)))"
    by (simp add: walk_files_append[symmetric])
  then show ?thesis
    by (simp add: walk_files_concat comp_def) (simp add: walk_files_def path_join_def)
qed

lemma walk_files_complete:
  "lookup n r = Some (File dat) \<Longrightarrow> r \<noteq> [] \<Longrightarrow> (d @ r, last r) \<in> set (walk_files (walk_dir d n))"
proof (induction r arbitrary: n d)
  case Nil
  then show ?case by simp
next
  case (Cons c cs)
  then obtain es m where n: "n = Dir es" and m: "map_of es c = Some m"
    and l: "lookup m cs = Some (File dat)"
    by (cases n) (auto split: option.splits)
  from m have mem: "(c, m) \<in> set es" by (rule map_of_SomeD)
  show ?case
  proof (cases "cs = []")
    case True
    with l have "m = File dat" by simp
    with mem have "c \<in> set (map fst (filter (\<lambda>e. \<not> is_dir (snd e)) es))"
      by (force simp: is_dir_def)
    then have "(d @ [c], c) \<in> set (walk_files (walk_dir d (Dir es)))"
      unfolding walk_files_Dir by force
    then show ?thesis using True n by simp
  next
    case False
    with l obtain ds where ds: "m = Dir ds" by (cases m) auto
    from Cons.IH[OF l False, of "d @ [c]"]
    have "(d @ c # cs, last cs) \<in> set (walk_files (walk_dir (d @ [c]) m))" by simp
    moreover have "set (walk_files (walk_dir (d @ [c]) m)) \<subseteq> set (walk_files (walk_dir d n))"
      using mem ds unfolding n walk_files_Dir by (force simp: is_dir_def)
    ultimately show ?thesis using False by auto
  qed
qed

lemma only_dirs_is_dir: "only_dirs n \<Longrightarrow> is_dir n"
  by (cases n) (simp_all add: is_dir_def)

lemma only_dirs_walk: "only_dirs n \<Longrightarrow> walk_files (walk_dir d n) = []"
proof (induction d n rule: walk_dir.induct)
  case (1 dirpath dat)
  then show ?case by simp
next
  case (2 dirpath es)
  from "2.prems" have all: "\<forall>e \<in> set es. only_dirs (snd e)" by simp
  then have "filter (\<lambda>e. \<not> is_dir (snd e)) es = []"
    by (auto simp: filter_empty_conv dest: only_dirs_is_dir)
  moreover have "walk_files (walk_dir (dirpath @ [fst e]) (snd e)) = []"
    if "e \<in> set (filter (\<lambda>e. is_dir (snd e)) es)" for e
    using "2.IH"[OF that] that all by simp
  ultimately show ?case unfolding walk_files_Dir by simp
qed

subsection \<open>Writing the archive\<close>

lemma zip_write_frame:
  "zip_write zp f a es t = Inr (es', t') \<Longrightarrow> \<not> overlap zp q \<Longrightarrow> lookup t' q = lookup t q"
  by (auto simp: zip_write_def overlap_def lookup_upd_other split: option.splits node.splits)

lemma write_files_frame:
  "write_files zp js es t = (r, es', t') \<Longrightarrow> \<not> overlap zp q \<Longrightarrow> lookup t' q = lookup t q"
proof (induction zp js es t rule: write_files.induct)
  case (1 zp es t)
  then show ?case by simp
next
  case (2 zp filename arcname js es t)
  show ?case
  proof (cases "zip_write zp filename arcname es t")
    case (Inl e)
    with "2.prems" show ?thesis by simp
  next
    case (Inr x)
    then obtain es1 t1 where x: "zip_write zp filename arcname es t = Inr (es1, t1)"
      by (cases x) auto
    with "2.prems" have "write_files zp js es1 t1 = (r, es', t')" by simp
    from "2.IH"[OF x refl this "2.prems"(2)] zip_write_frame[OF x "2.prems"(2)]
    show ?thesis by simp
  qed
qed



lemma zip_open_Inr:
  "zip_open zp t = Inr t1 \<longleftrightarrow>
     \<not> path_isdir t zp \<and> path_isdir t (butlast zp) \<and> t1 = upd zp (Some (File (Partial []))) t"
  by (auto simp: zip_open_def path_isdir_iff split: option.splits node.splits)

lemma zip_open_nonempty: "zip_open zp t = Inr t1 \<Longrightarrow> zp \<noteq> []"
  by (auto simp: zip_open_Inr)

lemma zip_open_lookup:
  assumes "zip_open zp t = Inr t1"
  shows "lookup t1 zp = Some (File (Partial []))"
proof -
  from assms obtain es where "lookup t (butlast zp) = Some (Dir es)" "zp \<noteq> []"
    and t1: "t1 = upd zp (Some (File (Partial []))) t"
    using zip_open_nonempty[OF assms] by (auto simp: zip_open_Inr path_isdir_iff)
  from lookup_upd_parent[OF this(1,2), of "File (Partial [])" "[]"] show ?thesis unfolding t1 by simp
qed



lemma pack_unfold:
  "pack zp b t =
     (case zip_open zp t of
        Inl e \<Rightarrow> (Some e, t)
      | Inr t1 \<Rightarrow>
          (case write_files zp (jobs_of t1 b) [] t1 of
             (r, es, t2) \<Rightarrow> (r, upd zp (Some (File (Zip es))) t2)))"
  by (simp add: pack_def)

lemma pack_frame:
  assumes "pack zp b t = (r, t')" and "\<not> overlap zp q"
  shows "lookup t' q = lookup t q"
proof (cases "zip_open zp t")
  case (Inl e)
  with assms show ?thesis by (simp add: pack_unfold)
next
  case (Inr t1)
  with assms(1) obtain es t2 where w: "write_files zp (jobs_of t1 b) [] t1 = (r, es, t2)"
    and t': "t' = upd zp (Some (File (Zip es))) t2"
    by (auto simp: pack_unfold split: prod.splits)
  from Inr have "t1 = upd zp (Some (File (Partial []))) t" by (simp add: zip_open_Inr)
  then have "lookup t1 q = lookup t q"
    using assms(2) by (simp add: overlap_def lookup_upd_other)
  moreover have "lookup t' q = lookup t2 q"
    unfolding t' using assms(2) by (simp add: overlap_def lookup_upd_other)
  ultimately show ?thesis using write_files_frame[OF w assms(2)] by simp
qed





subsection \<open>The body and the loop\<close>

lemma main_unfold:
  "main [prog, mode, dest] st =
     (case validate_path (abspath (cwd st) dest) True (fs st) of
        Inl e \<Rightarrow> Some (Some e, st)
      | Inr u \<Rightarrow>
     (case validate_path (abspath (cwd st) ''../src'') True (fs st) of
        Inl e \<Rightarrow> Some (Some e, st)
      | Inr u \<Rightarrow> main_loop mode (abspath (cwd st) dest) (abspath (cwd st) ''../src'') plugins st))"
  by (simp add: main_def Let_def split: sum.splits)

lemma main_body_copy_unfold:
  "main_body ''copy'' out src p st =
     (case validate_path (src @ [p]) True (fs st) of
        Inl e \<Rightarrow> Some (Some e, st)
      | Inr u \<Rightarrow>
     (case get_build_output_path (src @ [p]) (fs st) of
        Inl e \<Rightarrow> Some (Some e, st)
      | Inr b \<Rightarrow>
     (case (if path_exists (fs st) (out @ [p]) then rmtree (out @ [p]) (fs st) else Inr (fs st)) of
        Inl e \<Rightarrow> Some (Some e, st)
      | Inr t1 \<Rightarrow>
     (case copytree b (out @ [p]) t1 of
        None \<Rightarrow> None
      | Some (Inl e) \<Rightarrow>
          Some (Some e, st\<lparr>fs := t1, stdout := stdout st @
                 [''Copying build output files from '' @ path_str b @ '' to '' @ path_str (out @ [p])]\<rparr>)
      | Some (Inr t2) \<Rightarrow>
          Some (None, st\<lparr>fs := t2, stdout := stdout st @
                 [''Copying build output files from '' @ path_str b @ '' to '' @ path_str (out @ [p])]\<rparr>)))))"
  by (simp add: main_body_def path_join_def Let_def split: sum.splits option.splits)

lemma main_body_pack_unfold:
  "main_body ''pack'' out src p st =
     (case validate_path (src @ [p]) True (fs st) of
        Inl e \<Rightarrow> Some (Some e, st)
      | Inr u \<Rightarrow>
     (case get_build_output_path (src @ [p]) (fs st) of
        Inl e \<Rightarrow> Some (Some e, st)
      | Inr b \<Rightarrow>
     (case pack (out @ [p @ ''.zip'']) b (fs st) of
        (r, t1) \<Rightarrow> Some (r, st\<lparr>fs := t1\<rparr>))))"
  by (simp add: main_body_def path_join_def Let_def split: sum.splits prod.splits)

lemma main_body_other_unfold:
  "mode \<noteq> ''copy'' \<Longrightarrow> mode \<noteq> ''pack'' \<Longrightarrow>
   main_body mode out src p st =
     (case validate_path (src @ [p]) True (fs st) of
        Inl e \<Rightarrow> Some (Some e, st)
      | Inr u \<Rightarrow>
     (case get_build_output_path (src @ [p]) (fs st) of
        Inl e \<Rightarrow> Some (Some e, st)
      | Inr b \<Rightarrow> Some (Some (ValueError (''Unknown mode: '' @ mode)), st)))"
  by (simp add: main_body_def path_join_def Let_def split: sum.splits option.splits)

lemma main_body_invalid:
  assumes "\<not> path_isdir (fs st) (src @ [p]) \<or> \<not> path_isdir (fs st) (build_of src p)"
  shows "\<exists>e. main_body mode out src p st = Some (Some e, st) \<and>
           (if (\<exists>d. lookup (fs st) (src @ [p]) = Some (File d)) then e = NotADirectoryError (src @ [p])
            else if path_isdir (fs st) (src @ [p]) then
              e = (if (\<exists>d. lookup (fs st) (build_of src p) = Some (File d))
                   then NotADirectoryError (build_of src p) else FileNotFoundError (build_of src p))
            else e = FileNotFoundError (src @ [p]))"
proof (cases "validate_path (src @ [p]) True (fs st)")
  case (Inl e)
  then have "main_body mode out src p st = Some (Some e, st)"
    by (simp add: main_body_def path_join_def)
  with Inl show ?thesis by (auto simp: validate_path_Inl)
next
  case (Inr u)
  then have d: "path_isdir (fs st) (src @ [p])" by (simp add: validate_path_unit)
  with assms have "\<not> path_isdir (fs st) (build_of src p)" by simp
  then obtain e where e: "validate_path (build_of src p) True (fs st) = Inl e"
    by (cases "validate_path (build_of src p) True (fs st)") (auto simp: validate_path_unit)
  then have "get_build_output_path (src @ [p]) (fs st) = Inl e"
    by (simp add: get_build_output_path_Inl build_of_def path_join_def)
  with Inr have "main_body mode out src p st = Some (Some e, st)"
    by (simp add: main_body_def path_join_def)
  moreover from d have "\<not> (\<exists>dat. lookup (fs st) (src @ [p]) = Some (File dat))"
    by (auto simp: path_isdir_iff)
  ultimately show ?thesis using e d by (auto simp: validate_path_Inl)
qed

lemma main_body_copy_success:
  assumes "main_body ''copy'' out src p st = Some (None, st')"
  shows "\<exists>es. lookup (upd (out @ [p]) None (fs st)) (build_of src p) = Some (Dir es) \<and>
              (\<forall>rel. lookup (fs st') (out @ [p] @ rel) = lookup (Dir es) rel)"
proof -
  from assms obtain b t1 t2 where
    b: "get_build_output_path (src @ [p]) (fs st) = Inr b"
    and d: "(if path_exists (fs st) (out @ [p]) then rmtree (out @ [p]) (fs st) else Inr (fs st)) = Inr t1"
    and c: "copytree b (out @ [p]) t1 = Some (Inr t2)"
    and st': "fs st' = t2"
    unfolding main_body_copy_unfold
    by (auto split: sum.splits option.splits)
  from b have b': "b = build_of src p"
    by (simp add: get_build_output_path_Inr build_of_def path_join_def)
  from pre_delete[OF d] have t1: "t1 = upd (out @ [p]) None (fs st)" .
  from copytree_Inr[OF c] show ?thesis unfolding st' b' t1 by auto
qed

lemma copy_reads_tree:
  assumes s: "main_body ''copy'' out src p st = Some (None, st1)"
  shows "\<exists>es. lookup (upd (out @ [p]) None (fs st)) (build_of src p) = Some (Dir es) \<and>
           (\<forall>rel. lookup (fs st1) (out @ [p] @ rel)
                     = lookup (upd (out @ [p]) None (fs st)) (build_of src p @ rel))"
proof -
  from main_body_copy_success[OF s] obtain es where
    es: "lookup (upd (out @ [p]) None (fs st)) (build_of src p) = Some (Dir es)"
    and c: "\<And>rel. lookup (fs st1) (out @ [p] @ rel) = lookup (Dir es) rel" by blast
  then show ?thesis by (simp add: lookup_append)
qed

lemma main_body_copy_frame:
  assumes "main_body ''copy'' out src p st = Some (r, st')" and "\<not> overlap (out @ [p]) q"
  shows "lookup (fs st') q = lookup (fs st) q"
proof -
  have del: "lookup (upd (out @ [p]) None (fs st)) q = lookup (fs st) q"
    using assms(2) by (simp add: overlap_def lookup_upd_other)
  from assms(1) consider "st' = st"
    | t1 where "(if path_exists (fs st) (out @ [p]) then rmtree (out @ [p]) (fs st) else Inr (fs st)) = Inr t1"
        "fs st' = t1"
    | b t1 t2 where "(if path_exists (fs st) (out @ [p]) then rmtree (out @ [p]) (fs st) else Inr (fs st)) = Inr t1"
        "copytree b (out @ [p]) t1 = Some (Inr t2)" "fs st' = t2"
    unfolding main_body_copy_unfold
    by (auto split: sum.splits option.splits)
  then show ?thesis
  proof cases
    case 1
    then show ?thesis by simp
  next
    case 2
    with pre_delete[OF 2(1)] del show ?thesis by simp
  next
    case 3
    from copytree_Inr[OF 3(2)] assms(2) have "lookup t2 q = lookup t1 q" by blast
    with pre_delete[OF 3(1)] del 3(3) show ?thesis by simp
  qed
qed


lemma main_body_frame:
  assumes "main_body mode out src p st = Some (r, st')"
    and "\<not> overlap (output_of mode out p) q"
  shows "lookup (fs st') q = lookup (fs st) q"
proof -
  consider "mode = ''copy''" | "mode = ''pack''" | "mode \<noteq> ''copy''" "mode \<noteq> ''pack''"
    by blast
  then show ?thesis
  proof cases
    case 1
    with assms show ?thesis
      by (auto simp: output_of_def path_join_def intro: main_body_copy_frame)
  next
    case 2
    from assms(2) 2 have no: "\<not> overlap (out @ [p @ ''.zip'']) q"
      by (simp add: output_of_def path_join_def)
    from assms(1) consider "st' = st"
      | b t1 where "pack (out @ [p @ ''.zip'']) b (fs st) = (r, t1)" "fs st' = t1"
      unfolding 2 main_body_pack_unfold
      by (auto split: sum.splits prod.splits)
    then show ?thesis
    proof cases
      case 1
      then show ?thesis by simp
    next
      case 2
      with pack_frame[OF 2(1) no] show ?thesis by simp
    qed
  next
    case 3
    with assms(1) have "st' = st"
      by (auto simp: main_body_other_unfold split: sum.splits)
    then show ?thesis by simp
  qed
qed

lemma main_loop_frame:
  "main_loop mode out src ps st = Some (r, st') \<Longrightarrow>
   \<forall>p \<in> set ps. \<not> overlap (output_of mode out p) q \<Longrightarrow>
   lookup (fs st') q = lookup (fs st) q"
proof (induction ps arbitrary: st)
  case Nil
  then show ?case by simp
next
  case (Cons p ps)
  from Cons.prems(1) obtain r1 st1 where b: "main_body mode out src p st = Some (r1, st1)"
    by (auto split: option.splits)
  from main_body_frame[OF b] Cons.prems(2) have 1: "lookup (fs st1) q = lookup (fs st) q" by simp
  show ?case
  proof (cases r1)
    case None
    with b Cons.prems(1) have "main_loop mode out src ps st1 = Some (r, st')" by simp
    from Cons.IH[OF this] Cons.prems(2) 1 show ?thesis by simp
  next
    case (Some e)
    with b Cons.prems(1) have "st' = st1" by simp
    with 1 show ?thesis by simp
  qed
qed

lemma main_loop_Cons_success:
  "main_loop mode out src (p # ps) st = Some (None, st') \<longleftrightarrow>
     (\<exists>st1. main_body mode out src p st = Some (None, st1) \<and>
            main_loop mode out src ps st1 = Some (None, st'))"
  by (auto split: option.splits)

lemma main_loop_append:
  "main_loop mode out src (qs @ ps) st =
     (case main_loop mode out src qs st of
        None \<Rightarrow> None
      | Some (None, st1) \<Rightarrow> main_loop mode out src ps st1
      | Some (Some e, st1) \<Rightarrow> Some (Some e, st1))"
  by (induction qs arbitrary: st) (auto split: option.splits)


lemma main_success_loop:
  assumes "main [prog, mode, dest] st = Some (None, st')"
  shows "main_loop mode (abspath (cwd st) dest) (abspath (cwd st) ''../src'') plugins st = Some (None, st')"
  using assms by (auto simp: main_unfold split: sum.splits)

lemma sibling_no_overlap: "q \<noteq> p \<Longrightarrow> \<not> overlap (out @ [q]) (out @ p # rel)"
  by (auto simp: overlap_def)

lemma later_plugins_keep:
  assumes "main_loop mode out src ps st = Some (r, st')" and "p \<notin> set ps"
  shows "lookup (fs st') (output_of mode out p @ rel) = lookup (fs st) (output_of mode out p @ rel)"
proof (rule main_loop_frame[OF assms(1)], rule ballI)
  fix q assume "q \<in> set ps"
  with assms(2) have "q \<noteq> p" by auto
  then show "\<not> overlap (output_of mode out q) (output_of mode out p @ rel)"
    by (auto simp: output_of_def path_join_def intro!: sibling_no_overlap)
qed

lemma prefix_src_build: "prefix src (build_of src p)"
  by (simp add: build_of_def path_join_def)







subsection \<open>The trees of later plugins\<close>

text \<open>
  A run that succeeds has not changed the build output tree of a plugin before it
  reached the plugin, unless the destination lies inside that tree.
\<close>

lemma plugins_split:
  assumes "p \<in> set plugins"
  shows "\<exists>qs ps. plugins = qs @ p # ps \<and> p \<notin> set qs \<and> p \<notin> set ps \<and> distinct qs"
proof -
  have d: "distinct plugins" by (simp add: plugins_def)
  from split_list[OF assms] obtain qs ps where s: "plugins = qs @ p # ps" by blast
  from d have "distinct (qs @ p # ps)" unfolding s .
  then have "p \<notin> set qs" "p \<notin> set ps" "distinct qs" by auto
  with s show ?thesis by blast
qed

lemma plugins_names:
  "q \<in> set plugins \<Longrightarrow> q \<notin> set [''bin'', configuration, target] \<and> q @ ''.zip'' \<noteq> target"
  by (auto simp: plugins_def configuration_def target_def)

lemma prefix_snoc_append:
  assumes "prefix (a @ [x]) (s @ ys)"
  shows "prefix (a @ [x]) s \<or> x \<in> set ys"
proof -
  from assms consider "prefix (a @ [x]) s" | us where "a @ [x] = s @ us" "prefix us ys"
    by (auto simp: prefix_append)
  then show ?thesis
  proof cases
    case 1
    then show ?thesis by simp
  next
    case 2
    show ?thesis
    proof (cases "us = []")
      case True
      with 2 show ?thesis by simp
    next
      case False
      with 2(1) have "last us = x" by (metis last_appendR last_snoc)
      with False have "x \<in> set us" by (metis last_in_set)
      with 2(2) show ?thesis by (auto dest: set_mono_prefix)
    qed
  qed
qed

lemma copy_body_not_ancestor:
  assumes "main_body ''copy'' out src q st = Some (None, st1)"
  shows "\<not> prefix (out @ [q]) (build_of src q)"
proof
  assume "prefix (out @ [q]) (build_of src q)"
  then obtain r where "build_of src q = (out @ [q]) @ r" by (auto simp: prefix_def)
  with lookup_upd_delete_below[of "out @ [q]" "fs st" r] copy_reads_tree[OF assms]
  show False by auto
qed

lemma copy_body_keeps_other_tree:
  assumes body: "main_body ''copy'' out src q st = Some (None, st1)"
    and names: "q \<notin> set [p, ''bin'', configuration, target]"
    and outside: "\<not> prefix (build_of src p) out"
  shows "lookup (fs st1) (build_of src p) = lookup (fs st) (build_of src p)"
proof (rule main_body_copy_frame[OF body], unfold overlap_def, rule notI, elim disjE)
  assume "prefix (out @ [q]) (build_of src p)"
  then have "prefix (out @ [q]) (src @ [p, ''bin'', configuration, target])"
    by (simp add: build_of_def path_join_def)
  from prefix_snoc_append[OF this] names have "prefix (out @ [q]) src" by simp
  with prefix_src_build[of src q] have "prefix (out @ [q]) (build_of src q)"
    using prefix_order.trans by blast
  with copy_body_not_ancestor[OF body] show False by simp
next
  assume "prefix (build_of src p) (out @ [q])"
  then have "build_of src p = out @ [q] \<or> prefix (build_of src p) out"
    by (auto simp: prefix_snoc)
  with outside have "build_of src p = out @ [q]" by simp
  then have "last (build_of src p) = q" by simp
  with names show False by (simp add: build_of_def path_join_def)
qed

lemma copy_loop_keeps_later_tree:
  "main_loop ''copy'' out src qs st = Some (None, st1) \<Longrightarrow>
   \<forall>q \<in> set qs. q \<notin> set [p, ''bin'', configuration, target] \<Longrightarrow>
   \<not> prefix (build_of src p) out \<Longrightarrow>
   lookup (fs st1) (build_of src p) = lookup (fs st) (build_of src p)"
proof (induction qs arbitrary: st)
  case Nil
  then show ?case by simp
next
  case (Cons q qs)
  from Cons.prems(1) obtain st2 where b: "main_body ''copy'' out src q st = Some (None, st2)"
    and l: "main_loop ''copy'' out src qs st2 = Some (None, st1)"
    unfolding main_loop_Cons_success by blast
  from copy_body_keeps_other_tree[OF b _ Cons.prems(3)] Cons.prems(2)
  have "lookup (fs st2) (build_of src p) = lookup (fs st) (build_of src p)" by simp
  with Cons.IH[OF l _ Cons.prems(3)] Cons.prems(2) show ?case by simp
qed

lemma copy_roundtrip_loop:
  assumes run: "main_loop ''copy'' out src (p # ps) st = Some (None, st')"
    and later: "p \<notin> set ps"
    and outside: "\<not> prefix (build_of src p) (out @ [p])"
  shows "lookup (fs st') (out @ [p] @ rel) = lookup (fs st) (build_of src p @ rel)"
proof -
  from run obtain st1 where b: "main_body ''copy'' out src p st = Some (None, st1)"
    and l: "main_loop ''copy'' out src ps st1 = Some (None, st')"
    unfolding main_loop_Cons_success by blast
  from copy_reads_tree[OF b] have
    c: "lookup (fs st1) (out @ [p] @ rel)
          = lookup (upd (out @ [p]) None (fs st)) (build_of src p @ rel)" by blast
  from copy_body_not_ancestor[OF b] outside
  have "lookup (upd (out @ [p]) None (fs st)) (build_of src p) = lookup (fs st) (build_of src p)"
    by (simp add: lookup_upd_other)
  then have "lookup (upd (out @ [p]) None (fs st)) (build_of src p @ rel) = lookup (fs st) (build_of src p @ rel)"
    by (simp add: lookup_append)
  with c later_plugins_keep[OF l later, of rel] show ?thesis
    by (simp add: output_of_def path_join_def)
qed


subsection \<open>The whole run\<close>

lemma copy_run_tree:
  assumes run: "main [prog, ''copy'', dest] st = Some (None, st')"
    and listed: "p \<in> set plugins"
    and outside: "\<not> prefix (build_of (abspath (cwd st) ''../src'') p) (abspath (cwd st) dest)"
  shows "lookup (fs st') (abspath (cwd st) dest @ [p] @ rel)
           = lookup (fs st) (build_of (abspath (cwd st) ''../src'') p @ rel)"
proof -
  let ?out = "abspath (cwd st) dest" and ?src = "abspath (cwd st) ''../src''"
  from plugins_split[OF listed] obtain qs ps where
    s: "plugins = qs @ p # ps" "p \<notin> set qs" "p \<notin> set ps" by blast
  from main_success_loop[OF run] have "main_loop ''copy'' ?out ?src (qs @ p # ps) st = Some (None, st')"
    unfolding s(1) .
  then obtain st1 where 1: "main_loop ''copy'' ?out ?src qs st = Some (None, st1)"
    and 2: "main_loop ''copy'' ?out ?src (p # ps) st1 = Some (None, st')"
    unfolding main_loop_append by (auto split: option.splits)
  have names: "\<forall>q \<in> set qs. q \<notin> set [p, ''bin'', configuration, target]"
  proof
    fix q assume q: "q \<in> set qs"
    then have "q \<in> set plugins" unfolding s(1) by simp
    from plugins_names[OF this] q s(2) show "q \<notin> set [p, ''bin'', configuration, target]" by auto
  qed
  from copy_loop_keeps_later_tree[OF 1 names outside]
  have same: "lookup (fs st1) (build_of ?src p @ rel) = lookup (fs st) (build_of ?src p @ rel)"
    by (simp add: lookup_append)
  have "build_of ?src p \<noteq> ?out @ [p]"
  proof
    assume "build_of ?src p = ?out @ [p]"
    then have "last (build_of ?src p) = p" by simp
    with plugins_names[OF listed] show False by (simp add: build_of_def path_join_def)
  qed
  with outside have "\<not> prefix (build_of ?src p) (?out @ [p])" by (simp add: prefix_snoc)
  from copy_roundtrip_loop[OF 2 s(3) this, of rel] same show ?thesis by simp
qed





section \<open>Properties\<close>

text \<open>
  In the statements about the loop, \<open>main_loop mode out src (p # ps) st\<close> is the loop of
  \<open>main\<close> at the moment it reaches plugin \<open>p\<close>: \<open>out\<close> is the destination directory,
  \<open>src\<close> the source root, \<open>st\<close> the state reached, and \<open>ps\<close> the plugins still to come.
  \<open>main\<close> enters the loop with the whole list once the destination and the source root
  have been validated (lemma \<open>main_unfold\<close>).
\<close>

subsection \<open>Unknown mode\<close>

text \<open>
  C1, as amended.  With a mode other than \<open>copy\<close> and \<open>pack\<close>, a run with two
  arguments fails and leaves the state, file system included, as it was: nothing is
  copied or packed for any plugin.  The failure is the \<open>ValueError\<close> for the unknown
  mode exactly when the destination, the source root, the first plugin's directory and
  its build output directory are all directories.  The script validates these four
  before it looks at the mode, which it does inside the loop; a validation that fails
  ends the run with its own error.
\<close>

theorem unknown_mode_fails:
  assumes "mode \<noteq> ''copy''" and "mode \<noteq> ''pack''"
  shows "\<exists>e. main [prog, mode, dest] st = Some (Some e, st) \<and>
           (e = ValueError (''Unknown mode: '' @ mode) \<longleftrightarrow>
              path_isdir (fs st) (abspath (cwd st) dest) \<and>
              path_isdir (fs st) (abspath (cwd st) ''../src'') \<and>
              path_isdir (fs st) (abspath (cwd st) ''../src'' @ [hd plugins]) \<and>
              path_isdir (fs st) (build_of (abspath (cwd st) ''../src'') (hd plugins)))"
proof -
  let ?out = "abspath (cwd st) dest" and ?src = "abspath (cwd st) ''../src''"
  let ?p = "hd plugins"
  have loop: "main_loop mode ?out ?src plugins st = main_body mode ?out ?src ?p st"
    if "\<exists>e. main_body mode ?out ?src ?p st = Some (Some e, st)"
    using that by (auto simp: plugins_def)
  show ?thesis
  proof (cases "validate_path ?out True (fs st)")
    case (Inl e)
    then have "main [prog, mode, dest] st = Some (Some e, st)" by (simp add: main_unfold)
    moreover from Inl have "e \<noteq> ValueError (''Unknown mode: '' @ mode)"
      "\<not> path_isdir (fs st) ?out" by (auto simp: validate_path_Inl)
    ultimately show ?thesis by auto
  next
    case (Inr u)
    note o = this
    show ?thesis
    proof (cases "validate_path ?src True (fs st)")
      case (Inl e)
      with o have "main [prog, mode, dest] st = Some (Some e, st)" by (simp add: main_unfold)
      moreover from Inl have "e \<noteq> ValueError (''Unknown mode: '' @ mode)"
        "\<not> path_isdir (fs st) ?src" by (auto simp: validate_path_Inl)
      ultimately show ?thesis by auto
    next
      case (Inr u')
      from o Inr have dirs: "path_isdir (fs st) ?out" "path_isdir (fs st) ?src"
        by (simp_all add: validate_path_unit)
      show ?thesis
      proof (cases "path_isdir (fs st) (?src @ [?p]) \<and> path_isdir (fs st) (build_of ?src ?p)")
        case True
        then have "main_body mode ?out ?src ?p st = Some (Some (ValueError (''Unknown mode: '' @ mode)), st)"
          using assms
          by (simp add: main_body_other_unfold validate_path_unit[symmetric]
              get_build_output_path_def build_of_def path_join_def)
        with loop o Inr True dirs show ?thesis by (simp add: main_unfold)
      next
        case False
        from main_body_invalid[of st ?src ?p mode ?out] False obtain e where
          e: "main_body mode ?out ?src ?p st = Some (Some e, st)"
          and ne: "e \<noteq> ValueError (''Unknown mode: '' @ mode)"
          by (auto split: if_splits)
        with loop o Inr False show ?thesis by (auto simp: main_unfold)
      qed
    qed
  qed
qed

theorem unknown_mode_fails_witness:
  "''bogus'' \<noteq> ''copy'' \<and> ''bogus'' \<noteq> ''pack'' \<and>
   main [''build.py'', ''bogus'', ''/out''] demo
     = Some (Some (ValueError ''Unknown mode: bogus''), demo)"
proof -
  have "path_isdir (fs demo) (abspath (cwd demo) ''/out'') \<and>
        path_isdir (fs demo) (abspath (cwd demo) ''../src'') \<and>
        path_isdir (fs demo) (abspath (cwd demo) ''../src'' @ [hd plugins]) \<and>
        path_isdir (fs demo) (build_of (abspath (cwd demo) ''../src'') (hd plugins))"
    by (simp add: run_defs demo_def)
  with unknown_mode_fails [of "''bogus''" "''build.py''" "''/out''" demo]
  show ?thesis by auto
qed

text \<open>
  That the unknown mode is reported before any path is validated does not hold: with a
  destination that does not exist, the run ends in the \<open>FileNotFoundError\<close> of the
  first validation.
\<close>

theorem unknown_mode_counterexample:
  "''bogus'' \<noteq> ''copy'' \<and> ''bogus'' \<noteq> ''pack'' \<and>
   main [''build.py'', ''bogus'', ''/nowhere''] demo
     = Some (Some (FileNotFoundError [''nowhere'']), demo)"
  by (simp add: run_defs demo_def)

subsection \<open>Pack mode: the entries of the archive\<close>




text \<open>
  The condition on the destination is needed.  When the destination is the plugin's
  build output directory, the archive is created inside the tree before the tree is
  walked: the run succeeds, and the archive holds, after the entry for the one file of
  the tree, an entry for the archive itself.
\<close>

lemma pack_into_build_tree:
  "main [''build.py'', ''pack'', ''../src/F95ZoneMetadata/bin/Debug/net462''] inside
     = Some (None, inside_packed) \<and>
   abspath (cwd inside) ''../src/F95ZoneMetadata/bin/Debug/net462''
     = build_of (abspath (cwd inside) ''../src'') ''F95ZoneMetadata'' \<and>
   jobs_of (fs inside) (build_of (abspath (cwd inside) ''../src'') ''F95ZoneMetadata'')
     = [(build_of (abspath (cwd inside) ''../src'') ''F95ZoneMetadata'' @ [''a.txt''], ''a.txt'')] \<and>
   lookup (fs inside_packed)
     (abspath (cwd inside) ''../src/F95ZoneMetadata/bin/Debug/net462'' @ [''F95ZoneMetadata'' @ ''.zip''])
     = Some (File (Zip [(''a.txt'', Raw ''1''),
                        (''F95ZoneMetadata.zip'', Partial [(''a.txt'', Raw ''1'')])]))"
  by (simp add: run_defs inside_def inside_packed_def)

subsection \<open>Copy mode: the copied tree\<close>

text \<open>
  C3, as amended.  After a successful run in copy mode, for a listed plugin \<open>p\<close> whose
  build output tree does not contain the destination directory, \<open><destination>/p\<close> is
  a copy of that tree: at every relative path, what is below \<open><destination>/p\<close> after
  the run is what was in the tree before it.  In particular every file of the tree is
  at the same relative path below \<open><destination>/p\<close>, with the same content.
\<close>

theorem copy_roundtrip:
  assumes run: "main [prog, ''copy'', dest] st = Some (None, st')"
    and listed: "p \<in> set plugins"
    and outside: "\<not> prefix (build_of (abspath (cwd st) ''../src'') p) (abspath (cwd st) dest)"
  shows "lookup (fs st') (abspath (cwd st) dest @ [p] @ rel)
           = lookup (fs st) (build_of (abspath (cwd st) ''../src'') p @ rel)"
  using run listed outside by (rule copy_run_tree)

theorem copy_roundtrip_witness:
  "main [''build.py'', ''copy'', ''/out''] demo = Some (None, demo_copied) \<and>
   ''DLSiteMetadata'' \<in> set plugins \<and>
   \<not> prefix (build_of (abspath (cwd demo) ''../src'') ''DLSiteMetadata'') (abspath (cwd demo) ''/out'') \<and>
   lookup (fs demo) (build_of (abspath (cwd demo) ''../src'') ''DLSiteMetadata'' @ [''sub'', ''b.txt''])
     = Some (File (Raw ''2'')) \<and>
   lookup (fs demo_copied) (abspath (cwd demo) ''/out'' @ [''DLSiteMetadata''] @ [''sub'', ''b.txt''])
     = Some (File (Raw ''2''))"
proof -
  have 1: "main [''build.py'', ''copy'', ''/out''] demo = Some (None, demo_copied)"
    by (simp add: run_defs demo_def demo_copied_def)
  have 2: "''DLSiteMetadata'' \<in> set plugins" by (simp add: plugins_def)
  have 3: "\<not> prefix (build_of (abspath (cwd demo) ''../src'') ''DLSiteMetadata'') (abspath (cwd demo) ''/out'')"
    by (simp add: run_defs demo_def)
  have 4: "lookup (fs demo) (build_of (abspath (cwd demo) ''../src'') ''DLSiteMetadata'' @ [''sub'', ''b.txt''])
     = Some (File (Raw ''2''))"
    by (simp add: run_defs demo_def)
  from copy_roundtrip [OF 1 2 3, of "[''sub'', ''b.txt'']"] 4
  have "lookup (fs demo_copied) (abspath (cwd demo) ''/out'' @ [''DLSiteMetadata''] @ [''sub'', ''b.txt''])
     = Some (File (Raw ''2''))" by simp
  with 1 2 3 4 show ?thesis by blast
qed

text \<open>
  Without the condition the statement fails.  When the destination is the build output
  directory itself and that directory holds a directory named like the plugin, the
  script deletes this directory, which is \<open>out/p\<close>, before it copies: the run
  succeeds, and the file \<open>F95ZoneMetadata/old.txt\<close> of the tree is copied nowhere.
\<close>

theorem copy_roundtrip_counterexample:
  "main [''build.py'', ''copy'', ''../src/F95ZoneMetadata/bin/Debug/net462''] nested
     = Some (None, nested_copied) \<and>
   lookup (fs nested)
     (build_of [''w'', ''src''] ''F95ZoneMetadata'' @ [''F95ZoneMetadata'', ''old.txt''])
     = Some (File (Raw ''o'')) \<and>
   lookup (fs nested_copied)
     (build_of [''w'', ''src''] ''F95ZoneMetadata'' @ [''F95ZoneMetadata''] @ [''F95ZoneMetadata'', ''old.txt''])
     = None"
  by (simp add: run_defs nested_def nested_copied_def)

subsection \<open>Copy mode: nothing of the old destination remains\<close>

text \<open>
  C4, as amended.  After a successful run in copy mode, for a listed plugin \<open>p\<close> whose
  build output tree does not contain the destination directory, nothing is at a path
  below \<open><destination>/p\<close> unless it was at that path in the plugin's build output tree
  before the run.  So nothing that was in the old \<open><destination>/p\<close> and is not in the
  tree remains: the old directory is replaced, not merged into.
\<close>

theorem copy_replaces_destination:
  assumes run: "main [prog, ''copy'', dest] st = Some (None, st')"
    and listed: "p \<in> set plugins"
    and outside: "\<not> prefix (build_of (abspath (cwd st) ''../src'') p) (abspath (cwd st) dest)"
    and absent: "lookup (fs st) (build_of (abspath (cwd st) ''../src'') p @ rel) = None"
  shows "lookup (fs st') (abspath (cwd st) dest @ [p] @ rel) = None"
  using copy_run_tree[OF run listed outside, of rel] absent by simp

theorem copy_replaces_destination_witness:
  "main [''build.py'', ''copy'', ''/out''] demo = Some (None, demo_copied) \<and>
   ''F95ZoneMetadata'' \<in> set plugins \<and>
   \<not> prefix (build_of (abspath (cwd demo) ''../src'') ''F95ZoneMetadata'') (abspath (cwd demo) ''/out'') \<and>
   lookup (fs demo) (build_of (abspath (cwd demo) ''../src'') ''F95ZoneMetadata'' @ [''stale'']) = None \<and>
   lookup (fs demo) (abspath (cwd demo) ''/out'' @ [''F95ZoneMetadata''] @ [''stale''])
     = Some (File (Raw ''old'')) \<and>
   lookup (fs demo_copied) (abspath (cwd demo) ''/out'' @ [''F95ZoneMetadata''] @ [''stale'']) = None"
proof -
  have 1: "main [''build.py'', ''copy'', ''/out''] demo = Some (None, demo_copied)"
    by (simp add: run_defs demo_def demo_copied_def)
  have 2: "''F95ZoneMetadata'' \<in> set plugins" by (simp add: plugins_def)
  have 3: "\<not> prefix (build_of (abspath (cwd demo) ''../src'') ''F95ZoneMetadata'') (abspath (cwd demo) ''/out'')"
    by (simp add: run_defs demo_def)
  have 4: "lookup (fs demo) (build_of (abspath (cwd demo) ''../src'') ''F95ZoneMetadata'' @ [''stale'']) = None"
    by (simp add: run_defs demo_def)
  have 5: "lookup (fs demo) (abspath (cwd demo) ''/out'' @ [''F95ZoneMetadata''] @ [''stale''])
     = Some (File (Raw ''old''))"
    by (simp add: run_defs demo_def)
  from copy_replaces_destination [OF 1 2 3 4] 1 2 3 4 5 show ?thesis by blast
qed

text \<open>
  Without the condition the statement fails.  When the destination is the build output
  directory of the second plugin, the copy for the first plugin puts
  \<open>F95ZoneMetadata/x\<close> into that tree before the second plugin is reached.  The run
  succeeds, and \<open><destination>/DLSiteMetadata/F95ZoneMetadata/x\<close> is there at the end:
  a path that was in the old \<open><destination>/DLSiteMetadata\<close> and was not in the second
  plugin's build output tree when the run began.
\<close>

theorem copy_replaces_destination_counterexample:
  "main [''build.py'', ''copy'', ''../src/DLSiteMetadata/bin/Debug/net462''] cross
     = Some (None, cross_copied) \<and>
   abspath (cwd cross) ''../src/DLSiteMetadata/bin/Debug/net462''
     = build_of (abspath (cwd cross) ''../src'') ''DLSiteMetadata'' \<and>
   lookup (fs cross)
     (abspath (cwd cross) ''../src/DLSiteMetadata/bin/Debug/net462''
        @ [''DLSiteMetadata''] @ [''F95ZoneMetadata'', ''x''])
     = Some (File (Raw ''old'')) \<and>
   lookup (fs cross)
     (build_of (abspath (cwd cross) ''../src'') ''DLSiteMetadata'' @ [''F95ZoneMetadata'', ''x''])
     = None \<and>
   lookup (fs cross_copied)
     (abspath (cwd cross) ''../src/DLSiteMetadata/bin/Debug/net462''
        @ [''DLSiteMetadata''] @ [''F95ZoneMetadata'', ''x''])
     = Some (File (Raw ''new''))"
  by (simp add: run_defs cross_def cross_copied_def)

subsection \<open>A missing build output directory\<close>

text \<open>
  C5, as amended.  When the loop reaches a plugin whose build output directory does
  not exist, the run fails there, in either mode, and the state is the one in which the
  plugin was reached: nothing is written for this plugin or for a later one.  The
  error is \<open>FileNotFoundError\<close>, for the plugin's directory when that is missing too and
  for the build output directory otherwise; except that it is \<open>NotADirectoryError\<close>
  when the plugin's source path exists as a regular file.
\<close>

theorem missing_build_output_fails:
  assumes "\<not> path_exists (fs st) (build_of src p)"
  shows "\<exists>e. main_loop mode out src (p # ps) st = Some (Some e, st) \<and>
           (if (\<exists>d. lookup (fs st) (src @ [p]) = Some (File d))
            then e = NotADirectoryError (src @ [p])
            else if lookup (fs st) (src @ [p]) = None
            then e = FileNotFoundError (src @ [p])
            else e = FileNotFoundError (build_of src p))"
proof -
  from assms have n: "lookup (fs st) (build_of src p) = None"
    by (simp add: path_exists_def split: option.splits)
  then have "\<not> path_isdir (fs st) (build_of src p)" by (simp add: path_isdir_iff)
  from main_body_invalid[of st src p mode out] this obtain e where
    b: "main_body mode out src p st = Some (Some e, st)"
    and e: "(if (\<exists>d. lookup (fs st) (src @ [p]) = Some (File d)) then e = NotADirectoryError (src @ [p])
            else if path_isdir (fs st) (src @ [p]) then
              e = (if (\<exists>d. lookup (fs st) (build_of src p) = Some (File d))
                   then NotADirectoryError (build_of src p) else FileNotFoundError (build_of src p))
            else e = FileNotFoundError (src @ [p]))"
    by blast
  have "path_isdir (fs st) (src @ [p]) \<longleftrightarrow>
          lookup (fs st) (src @ [p]) \<noteq> None \<and> \<not> (\<exists>d. lookup (fs st) (src @ [p]) = Some (File d))"
  proof (cases "lookup (fs st) (src @ [p])")
    case None
    then show ?thesis by (simp add: path_isdir_iff)
  next
    case (Some m)
    then show ?thesis by (cases m) (simp_all add: path_isdir_iff)
  qed
  with e n have "(if (\<exists>d. lookup (fs st) (src @ [p]) = Some (File d))
            then e = NotADirectoryError (src @ [p])
            else if lookup (fs st) (src @ [p]) = None
            then e = FileNotFoundError (src @ [p])
            else e = FileNotFoundError (build_of src p))"
    by (auto split: if_splits)
  with b show ?thesis by simp
qed

theorem missing_build_output_fails_witness:
  "\<not> path_exists (fs second_unbuilt) (build_of [''w'', ''src''] ''DLSiteMetadata'') \<and>
   main_loop ''pack'' [''out''] [''w'', ''src''] [''DLSiteMetadata''] second_unbuilt
     = Some (Some (FileNotFoundError (build_of [''w'', ''src''] ''DLSiteMetadata'')), second_unbuilt)"
proof -
  have a: "\<not> path_exists (fs second_unbuilt) (build_of [''w'', ''src''] ''DLSiteMetadata'')"
    by (simp add: run_defs second_unbuilt_def)
  have b: "lookup (fs second_unbuilt) ([''w'', ''src''] @ [''DLSiteMetadata'']) = Some (Dir [])"
    by (simp add: run_defs second_unbuilt_def)
  from missing_build_output_fails [OF a, of "''pack''" "[''out'']" "[]"] obtain e where
    "main_loop ''pack'' [''out''] [''w'', ''src''] [''DLSiteMetadata''] second_unbuilt
       = Some (Some e, second_unbuilt)"
    "(if (\<exists>d. lookup (fs second_unbuilt) ([''w'', ''src''] @ [''DLSiteMetadata'']) = Some (File d))
      then e = NotADirectoryError ([''w'', ''src''] @ [''DLSiteMetadata''])
      else if lookup (fs second_unbuilt) ([''w'', ''src''] @ [''DLSiteMetadata'']) = None
      then e = FileNotFoundError ([''w'', ''src''] @ [''DLSiteMetadata''])
      else e = FileNotFoundError (build_of [''w'', ''src''] ''DLSiteMetadata''))"
    by blast
  with a show ?thesis unfolding b by simp
qed

text \<open>
  That the error is always the one for a missing path does not hold: when the plugin's
  source path is a regular file, its build output directory does not exist and the run
  fails with \<open>NotADirectoryError\<close>.
\<close>

theorem missing_build_output_counterexample:
  "lookup (fs plugin_is_file) (build_of [''w'', ''src''] ''F95ZoneMetadata'') = None \<and>
   main [''build.py'', ''copy'', ''/out''] plugin_is_file
     = Some (Some (NotADirectoryError [''w'', ''src'', ''F95ZoneMetadata'']), plugin_is_file)"
  by (simp add: run_defs plugin_is_file_def)

subsection \<open>Argument count\<close>

text \<open>
  C6.  Whenever \<open>argv\<close> does not have exactly three entries (the program name and
  two arguments), the run ends in the \<open>ValueError\<close> of the first line of \<open>main\<close>, and
  the state, file system included, is the one it started in.
\<close>

theorem main_wrong_argument_count:
  "length argv \<noteq> 3 \<Longrightarrow> main argv st = Some (Some (ValueError ''Not enough arguments!''), st)"
  by (simp add: main_def)

theorem main_wrong_argument_count_witness:
  "length [''build.py'', ''copy''] \<noteq> 3 \<and>
   main [''build.py'', ''copy''] demo = Some (Some (ValueError ''Not enough arguments!''), demo)"
  using main_wrong_argument_count [of "[''build.py'', ''copy'']" demo] by simp

subsection \<open>Path validation\<close>

text \<open>
  C7.  \<open>validate_path\<close> fails with \<open>FileNotFoundError\<close> exactly when the path does not
  exist, fails with \<open>NotADirectoryError\<close> exactly when the directory flag is set and the
  path exists as something that is no directory, and succeeds in every other case.  It
  is a function of the file system that returns no new one: it changes nothing.
\<close>

theorem validate_path_outcomes:
  "(validate_path p isdir t = Inl (FileNotFoundError p) \<longleftrightarrow> lookup t p = None) \<and>
   (validate_path p isdir t = Inl (NotADirectoryError p) \<longleftrightarrow>
      isdir \<and> (\<exists>d. lookup t p = Some (File d))) \<and>
   (validate_path p isdir t = Inr () \<longleftrightarrow>
      (\<exists>n. lookup t p = Some n \<and> (isdir \<longrightarrow> is_dir n))) \<and>
   (\<forall>e. validate_path p isdir t = Inl e \<longrightarrow>
      e = FileNotFoundError p \<or> e = NotADirectoryError p)"
  by (cases "lookup t p"; cases isdir)
     (auto simp: validate_path_def path_exists_def path_isdir_def is_dir_def split: node.splits)

theorem validate_path_outcomes_witness:
  "validate_path [''out'', ''F95ZoneMetadata'', ''stale''] True (fs demo)
     = Inl (NotADirectoryError [''out'', ''F95ZoneMetadata'', ''stale'']) \<and>
   validate_path [''out'', ''F95ZoneMetadata'', ''stale''] False (fs demo) = Inr () \<and>
   validate_path [''out'', ''nothing''] False (fs demo) = Inl (FileNotFoundError [''out'', ''nothing''])"
proof -
  have f: "lookup (fs demo) [''out'', ''F95ZoneMetadata'', ''stale''] = Some (File (Raw ''old''))"
    by (simp add: demo_def layout_def)
  have n: "lookup (fs demo) [''out'', ''nothing''] = None"
    by (simp add: demo_def layout_def)
  show ?thesis
    using validate_path_outcomes [of "[''out'', ''F95ZoneMetadata'', ''stale'']" True "fs demo"]
      validate_path_outcomes [of "[''out'', ''F95ZoneMetadata'', ''stale'']" False "fs demo"]
      validate_path_outcomes [of "[''out'', ''nothing'']" False "fs demo"] f n
    by simp
qed

subsection \<open>Copy mode: a regular file in the place of the destination directory\<close>

text \<open>
  C8.  In copy mode, when the loop reaches plugin \<open>p\<close> while \<open>out/p\<close> is a regular
  file, the run fails there and the state is unchanged, so the file is still in place.
  When the plugin's directory and build output directory are valid, the error is the
  \<open>NotADirectoryError\<close> of the deletion that precedes the copy.
\<close>

theorem copy_onto_file_fails:
  assumes "lookup (fs st) (out @ [p]) = Some (File d)"
  shows "\<exists>e. main_loop ''copy'' out src (p # ps) st = Some (Some e, st) \<and>
           (path_isdir (fs st) (src @ [p]) \<and> path_isdir (fs st) (build_of src p)
              \<longrightarrow> e = NotADirectoryError (out @ [p]))"
proof (cases "path_isdir (fs st) (src @ [p]) \<and> path_isdir (fs st) (build_of src p)")
  case True
  from assms have "path_exists (fs st) (out @ [p])"
    and "rmtree (out @ [p]) (fs st) = Inl (NotADirectoryError (out @ [p]))"
    by (simp_all add: path_exists_def rmtree_def)
  with True have "main_body ''copy'' out src p st = Some (Some (NotADirectoryError (out @ [p])), st)"
    by (simp add: main_body_copy_unfold validate_path_unit[symmetric]
        get_build_output_path_def build_of_def path_join_def)
  with True show ?thesis by simp
next
  case False
  from main_body_invalid[of st src p "''copy''" out] False obtain e where
    "main_body ''copy'' out src p st = Some (Some e, st)" by blast
  with False show ?thesis by auto
qed

theorem copy_onto_file_fails_witness:
  "lookup (fs dest_is_file) ([''out''] @ [''F95ZoneMetadata'']) = Some (File (Raw ''f'')) \<and>
   main_loop ''copy'' [''out''] [''w'', ''src''] [''F95ZoneMetadata'', ''DLSiteMetadata''] dest_is_file
     = Some (Some (NotADirectoryError [''out'', ''F95ZoneMetadata'']), dest_is_file)"
proof -
  have a: "lookup (fs dest_is_file) ([''out''] @ [''F95ZoneMetadata'']) = Some (File (Raw ''f''))"
    by (simp add: run_defs dest_is_file_def)
  have b: "path_isdir (fs dest_is_file) ([''w'', ''src''] @ [''F95ZoneMetadata'']) \<and>
           path_isdir (fs dest_is_file) (build_of [''w'', ''src''] ''F95ZoneMetadata'')"
    by (simp add: run_defs dest_is_file_def)
  from copy_onto_file_fails [OF a, of "[''w'', ''src'']" "[''DLSiteMetadata'']"] a b
  show ?thesis by auto
qed

subsection \<open>What a run writes\<close>




subsection \<open>Pack mode: a tree without files\<close>

text \<open>
  C10, as amended.  In pack mode, when the loop reaches plugin \<open>p\<close> whose build output
  directory exists and holds no regular file, and \<open>out/p.zip\<close> is not an existing
  directory, and the destination does not lie inside the build output tree, then the
  body succeeds for this plugin and leaves at \<open>out/p.zip\<close> an archive without entries;
  the loop goes on with the plugins after \<open>p\<close>, which do not touch that archive.
  (The destination \<open>out\<close> is a directory, as \<open>main\<close> has checked.)
\<close>

theorem pack_empty_tree:
  assumes dest: "path_isdir (fs st) out"
    and tree: "lookup (fs st) (build_of src p) = Some n" "only_dirs n"
    and nodir: "\<not> path_isdir (fs st) (out @ [p @ ''.zip''])"
    and outside: "\<not> prefix (build_of src p) out"
  shows "\<exists>st1. main_body ''pack'' out src p st = Some (None, st1) \<and>
           lookup (fs st1) (out @ [p @ ''.zip'']) = Some (File (Zip [])) \<and>
           main_loop ''pack'' out src (p # ps) st = main_loop ''pack'' out src ps st1 \<and>
           (\<forall>r st'. p \<notin> set ps \<longrightarrow> main_loop ''pack'' out src ps st1 = Some (r, st') \<longrightarrow>
                lookup (fs st') (out @ [p @ ''.zip'']) = Some (File (Zip [])))"
proof -
  let ?zp = "out @ [p @ ''.zip'']" and ?b = "build_of src p"
  let ?t1 = "upd ?zp (Some (File (Partial []))) (fs st)"
  let ?t2 = "upd ?zp (Some (File (Zip []))) ?t1"
  from tree have bd: "path_isdir (fs st) ?b"
    by (simp add: path_isdir_def only_dirs_is_dir)
  have "?b = (src @ [p]) @ [''bin'', configuration, target]"
    by (simp add: build_of_def path_join_def)
  with tree(1) lookup_prefix_dir[of "fs st" "src @ [p]" "[''bin'', configuration, target]" n]
  have pd: "path_isdir (fs st) (src @ [p])" by (auto simp: path_isdir_iff)
  have o: "zip_open ?zp (fs st) = Inr ?t1"
    using dest nodir by (simp add: zip_open_Inr)
  have no: "\<not> overlap ?zp ?b"
  proof
    assume "overlap ?zp ?b"
    then have "prefix ?b out \<or> (\<exists>r. ?b = ?zp @ r)"
    proof (unfold overlap_def, elim disjE)
      assume "prefix ?zp ?b"
      then show ?thesis by (auto elim: prefixE)
    next
      assume "prefix ?b ?zp"
      then have "?b = ?zp \<or> prefix ?b out" by (simp add: prefix_snoc)
      then show ?thesis by auto
    qed
    then consider "prefix ?b out" | "?b = ?zp" | r where "?b = ?zp @ r" "r \<noteq> []"
      by (metis append_Nil2)
    then show False
    proof cases
      case 1
      with outside show ?thesis by simp
    next
      case 2
      with bd nodir show ?thesis by simp
    next
      case 3
      with tree(1) lookup_prefix_dir[of "fs st" ?zp r n] nodir show ?thesis
        by (auto simp: path_isdir_iff)
    qed
  qed
  then have "lookup ?t1 ?b = lookup (fs st) ?b"
    by (simp add: overlap_def lookup_upd_other)
  with tree have j: "jobs_of ?t1 ?b = []"
    by (simp add: os_walk_def only_dirs_walk)
  from o j have pk: "pack ?zp ?b (fs st) = (None, ?t2)"
    by (simp add: pack_unfold)
  let ?st1 = "st\<lparr>fs := ?t2\<rparr>"
  have body: "main_body ''pack'' out src p st = Some (None, ?st1)"
    using pd bd pk
    by (simp add: main_body_pack_unfold validate_path_unit[symmetric]
        get_build_output_path_def build_of_def path_join_def)
  have z: "lookup (fs ?st1) ?zp = Some (File (Zip []))"
    using lookup_upd_below[of ?t1 ?zp "File (Zip [])" "[]"] zip_open_lookup[OF o] by simp
  have keep: "lookup (fs st') ?zp = Some (File (Zip []))"
    if "p \<notin> set ps" "main_loop ''pack'' out src ps ?st1 = Some (r, st')" for r st'
    using later_plugins_keep[OF that(2,1), of "[]"] z
    by (simp add: output_of_def path_join_def)
  from body z keep show ?thesis by (intro exI[of _ ?st1]) simp
qed

theorem pack_empty_tree_witness:
  "path_isdir (fs empty_tree) [''out''] \<and>
   lookup (fs empty_tree) (build_of [''w'', ''src''] ''F95ZoneMetadata'') = Some (Dir [(''empty'', Dir [])]) \<and>
   only_dirs (Dir [(''empty'', Dir [])]) \<and>
   \<not> path_isdir (fs empty_tree) ([''out''] @ [''F95ZoneMetadata'' @ ''.zip'']) \<and>
   \<not> prefix (build_of [''w'', ''src''] ''F95ZoneMetadata'') [''out''] \<and>
   main_loop ''pack'' [''out''] [''w'', ''src''] [''F95ZoneMetadata'', ''DLSiteMetadata''] empty_tree
     = Some (None, empty_tree_packed) \<and>
   lookup (fs empty_tree_packed) ([''out''] @ [''F95ZoneMetadata'' @ ''.zip'']) = Some (File (Zip []))"
proof -
  have 1: "path_isdir (fs empty_tree) [''out'']" by (simp add: run_defs empty_tree_def)
  have 2: "lookup (fs empty_tree) (build_of [''w'', ''src''] ''F95ZoneMetadata'') = Some (Dir [(''empty'', Dir [])])"
    by (simp add: run_defs empty_tree_def)
  have 3: "only_dirs (Dir [(''empty'', Dir [])])" by simp
  have 4: "\<not> path_isdir (fs empty_tree) ([''out''] @ [''F95ZoneMetadata'' @ ''.zip''])"
    by (simp add: run_defs empty_tree_def)
  have 5: "\<not> prefix (build_of [''w'', ''src''] ''F95ZoneMetadata'') [''out'']" by (simp add: run_defs)
  have 6: "main_loop ''pack'' [''out''] [''w'', ''src''] [''F95ZoneMetadata'', ''DLSiteMetadata''] empty_tree
     = Some (None, empty_tree_packed)"
    by (simp add: run_defs empty_tree_def empty_tree_packed_def)
  from pack_empty_tree [OF 1 2 3 4 5, of "[''DLSiteMetadata'']"] obtain st1 where
    a: "main_loop ''pack'' [''out''] [''w'', ''src''] (''F95ZoneMetadata'' # [''DLSiteMetadata'']) empty_tree
          = main_loop ''pack'' [''out''] [''w'', ''src''] [''DLSiteMetadata''] st1"
    and b: "\<forall>r st'. ''F95ZoneMetadata'' \<notin> set [''DLSiteMetadata''] \<longrightarrow>
              main_loop ''pack'' [''out''] [''w'', ''src''] [''DLSiteMetadata''] st1 = Some (r, st') \<longrightarrow>
              lookup (fs st') ([''out''] @ [''F95ZoneMetadata'' @ ''.zip'']) = Some (File (Zip []))"
    by blast
  from a 6 have "main_loop ''pack'' [''out''] [''w'', ''src''] [''DLSiteMetadata''] st1 = Some (None, empty_tree_packed)"
    by simp
  with b have "lookup (fs empty_tree_packed) ([''out''] @ [''F95ZoneMetadata'' @ ''.zip'']) = Some (File (Zip []))"
    by simp
  with 1 2 3 4 5 6 show ?thesis by blast
qed

text \<open>
  Without the conditions the statement fails: when \<open>out/p.zip\<close> is a directory, the
  archive cannot be opened and the run ends in \<open>IsADirectoryError\<close>.  (When the
  destination lies inside the tree, the archive is itself a file of the tree by the
  time the tree is walked.)
\<close>

theorem pack_empty_tree_counterexample:
  "lookup (fs zip_is_dir) (build_of [''w'', ''src''] ''F95ZoneMetadata'') = Some (Dir []) \<and>
   main [''build.py'', ''pack'', ''/out''] zip_is_dir
     = Some (Some (IsADirectoryError [''out'', ''F95ZoneMetadata.zip'']), zip_is_dir)"
  by (simp add: run_defs zip_is_dir_def)

end
